theory Spec2Isabelle
  imports Complex_Main "HOL-Library.Multiset"
begin

section \<open>JavaScript objects used as dictionaries\<close>

text \<open>
  The aggregator and the dashboard keep their lookup tables in plain objects
  (\<^verbatim>\<open>Record<string, number>\<close>), created as \<^verbatim>\<open>{}\<close>. Such an object is modelled by
  the list of its own properties in the order in which they were created; the numbers it
  holds are counts and byte sizes, integers far below \<open>2^53\<close>, where the arithmetic of
  doubles is exact, so they are modelled by \<open>int\<close>. Writing to an own property replaces
  its value and keeps its place; writing to a new property appends it.
\<close>

type_synonym jsobj = "(string \<times> int) list"

fun own_get :: "jsobj \<Rightarrow> string \<Rightarrow> int option" where
  "own_get [] k = None"
| "own_get ((k', v) # ps) k = (if k' = k then Some v else own_get ps k)"

fun own_put :: "jsobj \<Rightarrow> string \<Rightarrow> int \<Rightarrow> jsobj" where
  "own_put [] k v = [(k, v)]"
| "own_put ((k', v') # ps) k v =
     (if k' = k then (k, v) # ps else (k', v') # own_put ps k v)"

text \<open>
  An object created as \<^verbatim>\<open>{}\<close> inherits from \<^verbatim>\<open>Object.prototype\<close>. Reading a key that
  is no own property gives the inherited value when the key is one of the names below, a
  function or, for \<^verbatim>\<open>__proto__\<close>, the prototype itself, and \<^verbatim>\<open>undefined\<close> otherwise.
\<close>

definition Object_prototype_names :: "string list" where
  "Object_prototype_names =
     [''constructor'', ''hasOwnProperty'', ''isPrototypeOf'', ''propertyIsEnumerable'',
      ''toLocaleString'', ''toString'', ''valueOf'', ''__proto__'',
      ''__defineGetter__'', ''__defineSetter__'', ''__lookupGetter__'', ''__lookupSetter__'']"

definition inherited :: "string \<Rightarrow> bool" where
  "inherited k = (k \<in> set Object_prototype_names)"

datatype jsvalue = Undefined | Num int | Object_ref

definition obj_get :: "jsobj \<Rightarrow> string \<Rightarrow> jsvalue" where
  "obj_get m k =
     (case own_get m k of
        Some v \<Rightarrow> Num v
      | None \<Rightarrow> if inherited k then Object_ref else Undefined)"

text \<open>
  \<^verbatim>\<open>x || 0\<close>: \<^verbatim>\<open>undefined\<close> and the number 0 are falsy, an object or a function is
  truthy.
\<close>

fun or_zero :: "jsvalue \<Rightarrow> jsvalue" where
  "or_zero Undefined = Num 0"
| "or_zero (Num v) = (if v = 0 then Num 0 else Num v)"
| "or_zero Object_ref = Object_ref"

text \<open>
  \<^verbatim>\<open>x + n\<close> for an integer \<open>n\<close>: the sum of two numbers, and otherwise no integer: an
  object or a function is turned into its text, to which the digits of \<open>n\<close> are
  appended, and \<^verbatim>\<open>undefined + n\<close> is \<^verbatim>\<open>NaN\<close>. \<open>None\<close> stands for these values.
\<close>

fun plus_number :: "jsvalue \<Rightarrow> int \<Rightarrow> int option" where
  "plus_number (Num a) n = Some (a + n)"
| "plus_number Object_ref n = None"
| "plus_number Undefined n = None"

text \<open>
  \<^verbatim>\<open>m[k] = v\<close> for a number \<open>v\<close>. The key \<^verbatim>\<open>__proto__\<close> is the accessor of
  \<^verbatim>\<open>Object.prototype\<close>, whose setter ignores a value that is neither an object nor
  \<^verbatim>\<open>null\<close>: no property is created. Every other key becomes or stays an own property.
\<close>

definition obj_set :: "jsobj \<Rightarrow> string \<Rightarrow> int \<Rightarrow> jsobj" where
  "obj_set m k v = (if k = ''__proto__'' then m else own_put m k v)"

text \<open>
  \<^verbatim>\<open>m[k] = v\<close> for a value \<open>v\<close> computed by \<^verbatim>\<open>+\<close>: an integer, or a string or
  \<^verbatim>\<open>NaN\<close> (\<open>None\<close>). Neither is an object, so the key \<^verbatim>\<open>__proto__\<close> is left alone.
  Under another key a string or \<^verbatim>\<open>NaN\<close> becomes a value of the map, which then is no
  map of integers any more: the differences that the comparator of the ranking takes
  are \<^verbatim>\<open>NaN\<close> and the order of the sort is left to the implementation. The model
  follows the code no further; its result there is \<open>None\<close>.
\<close>

definition obj_assign :: "jsobj \<Rightarrow> string \<Rightarrow> int option \<Rightarrow> jsobj option" where
  "obj_assign m k v =
     (if k = ''__proto__'' then Some m
      else case v of Some n \<Rightarrow> Some (own_put m k n) | None \<Rightarrow> None)"

text \<open>
  \<^verbatim>\<open>Object.entries\<close>, \<^verbatim>\<open>Object.keys\<close> and \<^verbatim>\<open>Object.values\<close> enumerate the own
  properties in the order of ECMAScript's OrdinaryOwnPropertyKeys: first the keys that are
  array indices (canonical decimal numerals below \<open>2^32 - 1\<close>), in ascending numeric
  order, then every other string key in creation order.
\<close>

definition is_digit :: "char \<Rightarrow> bool" where
  "is_digit c = (c \<in> set ''0123456789'')"

definition digit_value :: "char \<Rightarrow> nat" where
  "digit_value c = of_char c - 48"

definition numeric_value :: "string \<Rightarrow> nat" where
  "numeric_value s = foldl (\<lambda>n c. 10 * n + digit_value c) 0 s"

fun canonical_numeral :: "string \<Rightarrow> bool" where
  "canonical_numeral [] = False"
| "canonical_numeral [c] = is_digit c"
| "canonical_numeral (c # cs) = (c \<in> set ''123456789'' \<and> list_all is_digit cs)"

definition is_array_index :: "string \<Rightarrow> bool" where
  "is_array_index s = (canonical_numeral s \<and> numeric_value s < 2 ^ 32 - 1)"

definition Object_entries :: "jsobj \<Rightarrow> (string \<times> int) list" where
  "Object_entries m =
     sort_key (\<lambda>p. numeric_value (fst p)) (filter (\<lambda>p. is_array_index (fst p)) m)
     @ filter (\<lambda>p. \<not> is_array_index (fst p)) m"

definition Object_keys :: "jsobj \<Rightarrow> string list" where
  "Object_keys m = map fst (Object_entries m)"

definition Object_values :: "jsobj \<Rightarrow> int list" where
  "Object_values m = map snd (Object_entries m)"

text \<open>
  \<^verbatim>\<open>Array.prototype.sort\<close> with a comparator is a stable sort: an element stays behind
  every earlier element that the comparator does not put after it. It is modelled by
  insertion from the right, which places each element before the first element it does
  not compare greater than.
\<close>

fun insert_by :: "('a \<Rightarrow> 'a \<Rightarrow> int) \<Rightarrow> 'a \<Rightarrow> 'a list \<Rightarrow> 'a list" where
  "insert_by cmp x [] = [x]"
| "insert_by cmp x (y # ys) =
     (if cmp x y \<le> 0 then x # y # ys else y # insert_by cmp x ys)"

definition Array_sort :: "('a \<Rightarrow> 'a \<Rightarrow> int) \<Rightarrow> 'a list \<Rightarrow> 'a list" where
  "Array_sort cmp xs = foldr (insert_by cmp) xs []"

section \<open>Aggregator: \<^verbatim>\<open>src/app/utils/useGitAPI.ts\<close>\<close>

subsection \<open>Contribution calendar\<close>

record ContributionDay =
  contributionCount :: int
  date :: string

record ContributionWeek =
  contributionDays :: "ContributionDay list"

record ContributionData =
  totalContributions :: int
  weeks :: "ContributionWeek list"

text \<open>The value \<^verbatim>\<open>processContributionData\<close> returns.\<close>

record ContributionSummary =
  totalContributions_out :: int
  contributionMap :: jsobj

text \<open>
  \<^verbatim>\<open>week.contributionDays.forEach\<close> and \<^verbatim>\<open>data.weeks.forEach\<close>: the two nested
  loops, each a left-to-right fold that threads the map being filled.
\<close>

definition record_day :: "ContributionDay \<Rightarrow> jsobj \<Rightarrow> jsobj" where
  "record_day day m = obj_set m (date day) (contributionCount day)"

definition record_week :: "ContributionWeek \<Rightarrow> jsobj \<Rightarrow> jsobj" where
  "record_week week m = fold record_day (contributionDays week) m"

definition processContributionData :: "ContributionData \<Rightarrow> ContributionSummary" where
  "processContributionData data =
     \<lparr> totalContributions_out = totalContributions data,
       contributionMap = fold record_week (weeks data) [] \<rparr>"

text \<open>All days of a response, week after week.\<close>

definition all_days :: "ContributionData \<Rightarrow> ContributionDay list" where
  "all_days data = concat (map contributionDays (weeks data))"

subsection \<open>The contribution calendar, with an explicit store\<close>

text \<open>
  The same function with its store made explicit, to speak of its effects. The store is
  the list of the objects allocated so far, an address being an index: a cell holds a
  response or a dictionary. The function receives the address of the response, allocates
  the empty object \<^verbatim>\<open>contributionMap\<close>, writes every day into it, and returns the
  total with the address of the map. An address that holds no response is outside the
  declared type of the argument: there the model returns \<open>None\<close>.
\<close>

datatype cell = Raw ContributionData | Dict jsobj

type_synonym heap = "cell list"

definition cell_at :: "heap \<Rightarrow> nat \<Rightarrow> cell option" where
  "cell_at h a = (if a < length h then Some (h ! a) else None)"

definition alloc :: "cell \<Rightarrow> heap \<Rightarrow> nat \<times> heap" where
  "alloc c h = (length h, h @ [c])"

record SummaryRef =
  totalContributions_ref :: int
  contributionMap_ref :: nat

definition write_day :: "nat \<Rightarrow> ContributionDay \<Rightarrow> heap \<Rightarrow> heap" where
  "write_day a day h =
     (case cell_at h a of
        Some (Dict m) \<Rightarrow> h[a := Dict (obj_set m (date day) (contributionCount day))]
      | _ \<Rightarrow> h)"

definition write_week :: "nat \<Rightarrow> ContributionWeek \<Rightarrow> heap \<Rightarrow> heap" where
  "write_week a week h = fold (write_day a) (contributionDays week) h"

definition processContributionData_heap :: "nat \<Rightarrow> heap \<Rightarrow> (SummaryRef \<times> heap) option" where
  "processContributionData_heap p h =
     (case cell_at h p of
        Some (Raw data) \<Rightarrow>
          (let (a, h1) = alloc (Dict []) h;
               h2 = fold (write_week a) (weeks data) h1
           in Some (\<lparr> totalContributions_ref = totalContributions data,
                      contributionMap_ref = a \<rparr>, h2))
      | _ \<Rightarrow> None)"

subsection \<open>Repository languages by byte size\<close>

text \<open>
  The repository nodes of the GraphQL answer (\<^verbatim>\<open>GitHubRepo\<close>). Several interfaces of
  the source have a field \<^verbatim>\<open>name\<close> or \<^verbatim>\<open>size\<close>; the fields of the input carry a
  prefix here, those of the output \<^verbatim>\<open>RepoLanguage\<close> keep the name (\<open>size\<close> is a
  constant of HOL, hence \<open>size_bytes\<close>).
\<close>

record LanguageNode =
  node_name :: string
  color :: string

record LanguageEdge =
  edge_size :: int
  node :: LanguageNode

record LanguageConnection =
  edges :: "LanguageEdge list"

record Stargazers =
  totalCount :: int

record GitHubRepo =
  repo_name :: string
  languages :: LanguageConnection
  stargazers :: Stargazers

record RepoLanguage =
  name :: string
  size_bytes :: int

record RepoDetail =
  detail_name :: string
  stars :: int
  detail_languages :: "string list"

record RepoLanguages =
  topLanguages :: "RepoLanguage list"
  repoDetails :: "RepoDetail list"

definition repo_languages :: "GitHubRepo \<Rightarrow> RepoLanguage list" where
  "repo_languages repo =
     map (\<lambda>lang. \<lparr> name = node_name (node lang), size_bytes = edge_size lang \<rparr>)
       (edges (languages repo))"

text \<open>\<^verbatim>\<open>languageMap[lang.name] = (languageMap[lang.name] || 0) + lang.size\<close>.\<close>

definition add_language :: "RepoLanguage \<Rightarrow> jsobj \<Rightarrow> jsobj option" where
  "add_language lang m =
     obj_assign m (name lang) (plus_number (or_zero (obj_get m (name lang))) (size_bytes lang))"

text \<open>\<^verbatim>\<open>languages.forEach\<close>, as long as the map is a map of integers.\<close>

definition add_languages :: "RepoLanguage list \<Rightarrow> jsobj option \<Rightarrow> jsobj option" where
  "add_languages langs acc =
     fold (\<lambda>lang acc. case acc of None \<Rightarrow> None | Some m \<Rightarrow> add_language lang m) langs acc"

text \<open>
  One pass of \<^verbatim>\<open>repositories.forEach\<close>: the state is the pair of \<^verbatim>\<open>languageMap\<close>
  and \<^verbatim>\<open>repoDetails\<close>.
\<close>

definition repo_step ::
  "GitHubRepo \<Rightarrow> jsobj option \<times> RepoDetail list \<Rightarrow> jsobj option \<times> RepoDetail list" where
  "repo_step repo st =
     (let langs = repo_languages repo;
          detail = \<lparr> detail_name = repo_name repo,
                     stars = totalCount (stargazers repo),
                     detail_languages = map name langs \<rparr>
      in (add_languages langs (fst st), snd st @ [detail]))"

text \<open>The comparator \<^verbatim>\<open>(a, b) => b[1] - a[1]\<close> of both rankings.\<close>

definition by_second_desc :: "string \<times> int \<Rightarrow> string \<times> int \<Rightarrow> int" where
  "by_second_desc a b = snd b - snd a"

definition sortedLanguages_of :: "jsobj \<Rightarrow> RepoLanguage list" where
  "sortedLanguages_of languageMap =
     map (\<lambda>(n, s). \<lparr> name = n, size_bytes = s \<rparr>)
       (Array_sort by_second_desc (Object_entries languageMap))"

definition processRepoLanguages :: "GitHubRepo list \<Rightarrow> RepoLanguages option" where
  "processRepoLanguages repositories =
     (let st = fold repo_step repositories (Some [], [])
      in case fst st of
           None \<Rightarrow> None
         | Some languageMap \<Rightarrow>
             Some \<lparr> topLanguages = sortedLanguages_of languageMap, repoDetails = snd st \<rparr>)"

text \<open>
  Vocabulary for the properties of the ranking: the language edges of all repositories in
  the order the loops visit them, the names among them, the bytes one name sums to, the
  order in which names are seen for the first time, and the order in which an object
  enumerates keys that were created in a given order.
\<close>

definition all_edges :: "GitHubRepo list \<Rightarrow> LanguageEdge list" where
  "all_edges repositories = concat (map (\<lambda>repo. edges (languages repo)) repositories)"

definition edge_names :: "GitHubRepo list \<Rightarrow> string list" where
  "edge_names repositories = map (\<lambda>e. node_name (node e)) (all_edges repositories)"

definition summed_size :: "GitHubRepo list \<Rightarrow> string \<Rightarrow> int" where
  "summed_size repositories n =
     sum_list (map edge_size (filter (\<lambda>e. node_name (node e) = n) (all_edges repositories)))"

definition see :: "'a \<Rightarrow> 'a list \<Rightarrow> 'a list" where
  "see x seen = (if x \<in> set seen then seen else seen @ [x])"

definition first_occurrences :: "'a list \<Rightarrow> 'a list" where
  "first_occurrences xs = fold see xs []"

definition enumeration_order :: "string list \<Rightarrow> string list" where
  "enumeration_order ks =
     sort_key numeric_value (filter is_array_index ks) @ filter (\<lambda>k. \<not> is_array_index k) ks"

text \<open>
  For the proofs: what a language step does to the own properties when the name is not
  inherited, with a missing property counting as 0, and the map these steps build from
  all languages of all repositories.
\<close>

fun stored :: "int option \<Rightarrow> int" where
  "stored None = 0"
| "stored (Some v) = v"

definition plain_add_language :: "RepoLanguage \<Rightarrow> jsobj \<Rightarrow> jsobj" where
  "plain_add_language lang m =
     own_put m (name lang) (stored (own_get m (name lang)) + size_bytes lang)"

definition plain_languageMap :: "GitHubRepo list \<Rightarrow> jsobj" where
  "plain_languageMap repositories =
     fold plain_add_language (concat (map repo_languages repositories)) []"

text \<open>A repository node with the given language edges, for the examples.\<close>

definition example_repo :: "string \<Rightarrow> (string \<times> int) list \<Rightarrow> GitHubRepo" where
  "example_repo n ls =
     \<lparr> repo_name = n,
       languages =
         \<lparr> edges = map (\<lambda>(l, s). \<lparr> edge_size = s,
                                     node = \<lparr> node_name = l, color = ''#000000'' \<rparr> \<rparr>) ls \<rparr>,
       stargazers = \<lparr> totalCount = 0 \<rparr> \<rparr>"

subsection \<open>Repository languages by repository count\<close>

text \<open>
  \<^verbatim>\<open>fetchTopLanguages\<close> after the request: the response with its \<^verbatim>\<open>ok\<close> flag and the
  decoded list, each repository with its nullable primary \<^verbatim>\<open>language\<close> (\<open>None\<close> for
  \<^verbatim>\<open>null\<close> or an absent field). A failed request is the error the source throws.
\<close>

record RestRepo =
  language :: "string option"

record RestResponse =
  ok :: bool
  json :: "RestRepo list"

datatype error = Error string

text \<open>
  \<^verbatim>\<open>if (repo.language)\<close>: \<^verbatim>\<open>null\<close>, \<^verbatim>\<open>undefined\<close> and the empty string are falsy.
  Then \<^verbatim>\<open>languageCount[repo.language] = (languageCount[repo.language] || 0) + 1\<close>.
\<close>

definition count_language :: "RestRepo \<Rightarrow> jsobj \<Rightarrow> jsobj option" where
  "count_language repo m =
     (case language repo of
        None \<Rightarrow> Some m
      | Some l \<Rightarrow>
          if l = [] then Some m
          else obj_assign m l (plus_number (or_zero (obj_get m l)) 1))"

text \<open>\<^verbatim>\<open>repos.forEach\<close>, as long as the map is a map of integers.\<close>

definition count_languages :: "RestRepo list \<Rightarrow> jsobj option \<Rightarrow> jsobj option" where
  "count_languages repos acc =
     fold (\<lambda>repo acc. case acc of None \<Rightarrow> None | Some m \<Rightarrow> count_language repo m) repos acc"

text \<open>
  The result is the thrown error (\<open>Inl\<close>) or the returned list (\<open>Inr\<close>), the latter
  \<open>None\<close> where a count is no integer.
\<close>

definition fetchTopLanguages :: "RestResponse \<Rightarrow> error + (string \<times> int) list option" where
  "fetchTopLanguages response =
     (if \<not> ok response then Inl (Error ''Failed to fetch repositories'')
      else
        case count_languages (json response) (Some []) of
          None \<Rightarrow> Inr None
        | Some languageCount \<Rightarrow>
            Inr (Some (take 5 (Array_sort by_second_desc (Object_entries languageCount)))))"

text \<open>
  Vocabulary for the properties: the number of repositories that report a language, and
  whether the language of a repository is missing or a name that is not inherited.
\<close>

definition repos_with_language :: "RestRepo list \<Rightarrow> string \<Rightarrow> int" where
  "repos_with_language repos l = int (length (filter (\<lambda>repo. language repo = Some l) repos))"

definition ordinary_language :: "RestRepo \<Rightarrow> bool" where
  "ordinary_language repo = (case language repo of None \<Rightarrow> True | Some l \<Rightarrow> \<not> inherited l)"

text \<open>
  For the proofs: the counting step on the own properties for a name that is not
  inherited, the map these steps build, and its ranking before \<^verbatim>\<open>slice(0, 5)\<close> cuts it.
\<close>

definition plain_count_language :: "RestRepo \<Rightarrow> jsobj \<Rightarrow> jsobj" where
  "plain_count_language repo m =
     (case language repo of
        None \<Rightarrow> m
      | Some l \<Rightarrow> if l = [] then m else own_put m l (stored (own_get m l) + 1))"

definition plain_languageCount :: "RestRepo list \<Rightarrow> jsobj" where
  "plain_languageCount repos = fold plain_count_language repos []"

definition ranked_by_count :: "RestRepo list \<Rightarrow> (string \<times> int) list" where
  "ranked_by_count repos = Array_sort by_second_desc (Object_entries (plain_languageCount repos))"

subsection \<open>The request for one year of contributions\<close>

text \<open>
  The variables \<^verbatim>\<open>fetchGitHubContributions\<close> posts: the username without its blanks
  and the first and last second of the year. A year is a natural number, written in
  decimal by the template literal.
\<close>

fun decimal :: "nat \<Rightarrow> string" where
  "decimal n =
     (if n < 10 then [char_of (48 + n)] else decimal (n div 10) @ [char_of (48 + n mod 10)])"

record QueryVariables =
  username_var :: string
  from_var :: string
  to_var :: string

definition default_year :: nat where
  "default_year = 2025"

definition contribution_query_variables :: "string \<Rightarrow> nat \<Rightarrow> QueryVariables" where
  "contribution_query_variables username year =
     \<lparr> username_var = filter (\<lambda>c. c \<noteq> CHR '' '') username,
       from_var = decimal year @ ''-01-01T00:00:00Z'',
       to_var = decimal year @ ''-12-31T23:59:59Z'' \<rparr>"

section \<open>Dashboard: \<^verbatim>\<open>src/app/components/Contribution.tsx\<close>\<close>

subsection \<open>Derived statistics\<close>

text \<open>
  The statistics are JavaScript numbers that need not be finite: a division by zero gives
  an infinity or \<^verbatim>\<open>NaN\<close>, and \<^verbatim>\<open>Math.max()\<close> of no argument is \<^verbatim>\<open>-Infinity\<close>.
\<close>

datatype number = Finite rat | NaN | Infinity | NegInfinity

text \<open>\<^verbatim>\<open>totalContributions / contributionValues.length\<close>, with \<open>t\<close> the total.\<close>

definition divide_by_length :: "int \<Rightarrow> nat \<Rightarrow> number" where
  "divide_by_length t n =
     (if n = 0 then (if t = 0 then NaN else if 0 < t then Infinity else NegInfinity)
      else Finite (of_int t / of_nat n))"

text \<open>
  \<^verbatim>\<open>Number(x.toFixed(1))\<close>. \<^verbatim>\<open>toFixed\<close> prints a value that is not finite as
  \<^verbatim>\<open>"NaN"\<close>, \<^verbatim>\<open>"Infinity"\<close> or \<^verbatim>\<open>"-Infinity"\<close>, and \<^verbatim>\<open>Number\<close> reads each back as
  the same value. How a finite quotient is rounded to one decimal depends on its binary
  representation; that rounding is the parameter \<open>round1\<close>.
\<close>

fun Number_toFixed1 :: "(rat \<Rightarrow> rat) \<Rightarrow> number \<Rightarrow> number" where
  "Number_toFixed1 round1 (Finite q) = Finite (round1 q)"
| "Number_toFixed1 round1 NaN = NaN"
| "Number_toFixed1 round1 Infinity = Infinity"
| "Number_toFixed1 round1 NegInfinity = NegInfinity"

text \<open>\<^verbatim>\<open>Math.max(...values)\<close> of integers: the greatest, and \<^verbatim>\<open>-Infinity\<close> of none.\<close>

fun Math_max :: "int list \<Rightarrow> number" where
  "Math_max [] = NegInfinity"
| "Math_max (v # vs) =
     (case Math_max vs of
        Finite q \<Rightarrow> Finite (max (of_int v) q)
      | _ \<Rightarrow> Finite (of_int v))"

record Stats =
  totalContributions_stat :: int
  averageDaily :: number
  daysWithContributions :: nat
  maxDaily :: number

definition stats :: "(rat \<Rightarrow> rat) \<Rightarrow> jsobj \<Rightarrow> int \<Rightarrow> Stats" where
  "stats round1 contribs t =
     (let contributionValues = Object_values contribs
      in \<lparr> totalContributions_stat = t,
           averageDaily =
             Number_toFixed1 round1 (divide_by_length t (length contributionValues)),
           daysWithContributions = length (filter (\<lambda>c. 0 < c) contributionValues),
           maxDaily = Math_max contributionValues \<rparr>)"

subsection \<open>Cumulative series\<close>

text \<open>
  An item of \<^verbatim>\<open>processedContributions\<close> has the fields \<^verbatim>\<open>date\<close> and
  \<^verbatim>\<open>contributions\<close> (the former is \<open>point_date\<close> here, \<open>date\<close> being the field of a
  calendar day above); the line chart's data spread each item and add \<^verbatim>\<open>cumulative\<close>.
\<close>

record DailyPoint =
  point_date :: string
  contributions :: int

record CumulativePoint = DailyPoint +
  cumulative :: int

definition Array_slice :: "'a list \<Rightarrow> nat \<Rightarrow> nat \<Rightarrow> 'a list" where
  "Array_slice xs start end = take (end - start) (drop start xs)"

definition Array_reduce :: "('b \<Rightarrow> 'a \<Rightarrow> 'b) \<Rightarrow> 'b \<Rightarrow> 'a list \<Rightarrow> 'b" where
  "Array_reduce f init xs = foldl f init xs"

definition cumulative_at :: "DailyPoint list \<Rightarrow> nat \<Rightarrow> int" where
  "cumulative_at processedContributions index =
     Array_reduce (\<lambda>sum curr. sum + contributions curr) 0
       (Array_slice processedContributions 0 (index + 1))"

definition lineChartData :: "DailyPoint list \<Rightarrow> CumulativePoint list" where
  "lineChartData processedContributions =
     map (\<lambda>(item, index).
            \<lparr> point_date = point_date item, contributions = contributions item,
              cumulative = cumulative_at processedContributions index \<rparr>)
       (zip processedContributions [0 ..< length processedContributions])"

text \<open>
  The running-sum construction the specification prefers: one pass that carries the sum
  of the items already seen.
\<close>

fun running_sum :: "int \<Rightarrow> DailyPoint list \<Rightarrow> CumulativePoint list" where
  "running_sum acc [] = []"
| "running_sum acc (item # items) =
     \<lparr> point_date = point_date item, contributions = contributions item,
       cumulative = acc + contributions item \<rparr>
     # running_sum (acc + contributions item) items"

definition buildCumulativeSeries_linear :: "DailyPoint list \<Rightarrow> CumulativePoint list" where
  "buildCumulativeSeries_linear dailySeries = running_sum 0 dailySeries"

subsection \<open>Export to PNG\<close>

text \<open>
  \<^verbatim>\<open>handleShareToPNG\<close> acts on the component's state and on the page. The page is what
  the routine observes of it: whether the two elements exist, and whether rasterizing the
  share layout and reading the canvas as a data URL succeeds (\<open>Inr\<close> the URL) or throws
  (\<open>Inl\<close> the error). The state holds the flag, the console and the downloads triggered.
\<close>

record Page =
  dashboardElement :: bool
  shareElement :: bool
  html2canvas :: "string + string"

record Dashboard =
  isDownloading :: bool
  console :: "string list"
  downloads :: "(string \<times> string) list"

text \<open>The prop \<^verbatim>\<open>username = "user"\<close>: the default stands in for a missing prop.\<close>

definition username_prop :: "string option \<Rightarrow> string" where
  "username_prop u = (case u of None \<Rightarrow> ''user'' | Some n \<Rightarrow> n)"

definition download_name :: "string \<Rightarrow> string" where
  "download_name username = username @ ''-github-wrapped-2025.png''"

definition handleShareToPNG :: "Page \<Rightarrow> string \<Rightarrow> Dashboard \<Rightarrow> Dashboard" where
  "handleShareToPNG page username st =
     (let st1 = st \<lparr> isDownloading := True \<rparr>
      in if \<not> dashboardElement page \<or> \<not> shareElement page
         then st1 \<lparr> console := console st1 @ [''no layout found''] \<rparr>
         else
           (let st2 =
              (case html2canvas page of
                 Inr url \<Rightarrow> st1 \<lparr> downloads := downloads st1 @ [(download_name username, url)] \<rparr>
               | Inl err \<Rightarrow> st1 \<lparr> console := console st1 @ [''Error generating PNG: '' @ err] \<rparr>)
            in st2 \<lparr> isDownloading := False \<rparr>))"

text \<open>The name the specification gives the download of the data of a year.\<close>

definition specified_download_name :: "string \<Rightarrow> nat \<Rightarrow> string" where
  "specified_download_name username year =
     username @ ''-github-wrapped-'' @ decimal year @ ''.png''"

section \<open>Properties of the object model\<close>

lemma own_put_keys:
  "map fst (own_put m k v) = (if k \<in> set (map fst m) then map fst m else map fst m @ [k])"
  by (induction m) force+

lemma own_put_distinct: "distinct (map fst m) \<Longrightarrow> distinct (map fst (own_put m k v))"
  by (simp add: own_put_keys)

lemma Object_entries_mset: "mset (Object_entries m) = mset m"
  by (simp add: Object_entries_def)

lemma Object_entries_length: "length (Object_entries m) = length m"
  using Object_entries_mset [of m] by (metis size_mset)

section \<open>Properties of the aggregator\<close>

subsection \<open>Sorting by the second component, descending\<close>

lemma insert_by_second_desc:
  "insert_by by_second_desc x ys = insort_key (\<lambda>p. - snd p) x ys"
  by (induction ys) (simp_all add: by_second_desc_def)

lemma Array_sort_by_second_desc:
  "Array_sort by_second_desc xs = sort_key (\<lambda>p. - snd p) xs"
  by (induction xs) (simp_all add: Array_sort_def insert_by_second_desc)

lemma Array_sort_mset: "mset (Array_sort by_second_desc xs) = mset xs"
  by (simp add: Array_sort_by_second_desc)

lemma Array_sort_descending:
  "sorted_wrt (\<lambda>a b. snd b \<le> snd a) (Array_sort by_second_desc xs)"
proof -
  have "sorted (map (\<lambda>p. - snd p) (sort_key (\<lambda>p. - snd p) xs))"
    by (rule sorted_sort_key)
  then show ?thesis
    by (simp add: Array_sort_by_second_desc sorted_map)
qed

lemma Array_sort_stable:
  "filter (\<lambda>p. snd p = s) (Array_sort by_second_desc xs) = filter (\<lambda>p. snd p = s) xs"
  using sort_key_stable [of "\<lambda>p. - snd p" "- s" xs]
  by (simp add: Array_sort_by_second_desc)

subsection \<open>Reading, writing and first occurrences\<close>

lemma own_get_put: "own_get (own_put m k v) k' = (if k' = k then Some v else own_get m k')"
  by (induction m) auto

lemma own_put_see: "map fst (own_put m k v) = see k (map fst m)"
  by (simp add: own_put_keys see_def)

lemma sum_own_put:
  "sum_list (map snd (own_put m k v)) = sum_list (map snd m) - stored (own_get m k) + v"
  by (induction m) auto

lemma see_distinct: "distinct seen \<Longrightarrow> distinct (see x seen)"
  by (simp add: see_def)

lemma fold_see_distinct: "distinct seen \<Longrightarrow> distinct (fold see xs seen)"
  by (induction xs arbitrary: seen) (simp_all add: see_distinct)

lemma fold_see_set: "set (fold see xs seen) = set seen \<union> set xs"
  by (induction xs arbitrary: seen) (auto simp: see_def)

lemma first_occurrences_distinct: "distinct (first_occurrences xs)"
  by (simp add: first_occurrences_def fold_see_distinct)

lemma first_occurrences_set: "set (first_occurrences xs) = set xs"
  by (simp add: first_occurrences_def fold_see_set)

lemma fold_see_fresh: "distinct (seen @ xs) \<Longrightarrow> fold see xs seen = seen @ xs"
  by (induction xs arbitrary: seen) (auto simp: see_def)

lemma first_occurrences_of_distinct: "distinct xs \<Longrightarrow> first_occurrences xs = xs"
  using fold_see_fresh [of "[]" xs] by (simp add: first_occurrences_def)

lemma proto_inherited: "inherited ''__proto__''"
  by (simp add: inherited_def Object_prototype_names_def)

lemma obj_set_ordinary: "k \<noteq> ''__proto__'' \<Longrightarrow> obj_set m k v = own_put m k v"
  by (simp add: obj_set_def)

lemma plus_or_zero_ordinary:
  "\<not> inherited k \<Longrightarrow> plus_number (or_zero (obj_get m k)) n = Some (stored (own_get m k) + n)"
  by (cases "own_get m k") (simp_all add: obj_get_def)

lemma obj_assign_ordinary:
  "\<not> inherited k \<Longrightarrow>
   obj_assign m k (plus_number (or_zero (obj_get m k)) n) = Some (own_put m k (stored (own_get m k) + n))"
  using proto_inherited by (auto simp: plus_or_zero_ordinary obj_assign_def)

subsection \<open>The contribution map\<close>

lemma fold_record_day_keys:
  "''__proto__'' \<notin> set (map date ds) \<Longrightarrow>
   map fst (fold record_day ds m) = fold see (map date ds) (map fst m)"
proof (induction ds arbitrary: m)
  case Nil
  then show ?case by simp
next
  case (Cons d ds)
  from Cons.prems have "date d \<noteq> ''__proto__''" and rest: "''__proto__'' \<notin> set (map date ds)"
    by auto
  then have "record_day d m = own_put m (date d) (contributionCount d)"
    by (simp add: record_day_def obj_set_ordinary)
  then show ?case
    by (simp add: Cons.IH [OF rest] own_put_see)
qed

lemma fold_record_week:
  "fold record_week ws m = fold record_day (concat (map contributionDays ws)) m"
  by (induction ws arbitrary: m) (simp_all add: record_week_def)

lemma contributionMap_keys:
  "''__proto__'' \<notin> set (map date (all_days d)) \<Longrightarrow>
   map fst (contributionMap (processContributionData d)) = first_occurrences (map date (all_days d))"
  by (simp add: processContributionData_def fold_record_week fold_record_day_keys
      first_occurrences_def all_days_def)

lemma Object_keys_length: "length (Object_keys m) = length m"
  by (simp add: Object_keys_def Object_entries_length)


text \<open>
  Claim C3: for a well-formed response, one whose days all have different dates, none
  of them the name \<^verbatim>\<open>__proto__\<close> (a calendar date is not), the map returned by
  \<^verbatim>\<open>processContributionData\<close> has as many keys as the weeks have days in total, and
  the returned total is the total of the response, unchanged.
\<close>

theorem processContributionData_key_count:
  assumes "distinct (map date (all_days d))"
    and "''__proto__'' \<notin> set (map date (all_days d))"
  shows "length (Object_keys (contributionMap (processContributionData d))) = length (all_days d)
       \<and> totalContributions_out (processContributionData d) = totalContributions d"
proof
  have "length (Object_keys (contributionMap (processContributionData d)))
        = length (map fst (contributionMap (processContributionData d)))"
    by (simp add: Object_keys_length)
  also have "\<dots> = length (first_occurrences (map date (all_days d)))"
    by (simp only: contributionMap_keys [OF assms(2)])
  also have "\<dots> = length (all_days d)"
    using assms(1) by (simp add: first_occurrences_of_distinct)
  finally show "length (Object_keys (contributionMap (processContributionData d))) = length (all_days d)" .
  show "totalContributions_out (processContributionData d) = totalContributions d"
    by (simp add: processContributionData_def)
qed

theorem processContributionData_key_count_witness:
  "distinct (map date (all_days
     \<lparr> totalContributions = 7,
       weeks = [\<lparr> contributionDays = [\<lparr> contributionCount = 3, date = ''2025-01-04'' \<rparr>] \<rparr>,
                \<lparr> contributionDays = [\<lparr> contributionCount = 0, date = ''2025-01-05'' \<rparr>,
                                      \<lparr> contributionCount = 4, date = ''2025-01-06'' \<rparr>] \<rparr>] \<rparr>)) \<and>
   ''__proto__'' \<notin> set (map date (all_days
     \<lparr> totalContributions = 7,
       weeks = [\<lparr> contributionDays = [\<lparr> contributionCount = 3, date = ''2025-01-04'' \<rparr>] \<rparr>,
                \<lparr> contributionDays = [\<lparr> contributionCount = 0, date = ''2025-01-05'' \<rparr>,
                                      \<lparr> contributionCount = 4, date = ''2025-01-06'' \<rparr>] \<rparr>] \<rparr>)) \<and>
   length (Object_keys (contributionMap (processContributionData
     \<lparr> totalContributions = 7,
       weeks = [\<lparr> contributionDays = [\<lparr> contributionCount = 3, date = ''2025-01-04'' \<rparr>] \<rparr>,
                \<lparr> contributionDays = [\<lparr> contributionCount = 0, date = ''2025-01-05'' \<rparr>,
                                      \<lparr> contributionCount = 4, date = ''2025-01-06'' \<rparr>] \<rparr>] \<rparr>))) = 3 \<and>
   totalContributions_out (processContributionData
     \<lparr> totalContributions = 7,
       weeks = [\<lparr> contributionDays = [\<lparr> contributionCount = 3, date = ''2025-01-04'' \<rparr>] \<rparr>,
                \<lparr> contributionDays = [\<lparr> contributionCount = 0, date = ''2025-01-05'' \<rparr>,
                                      \<lparr> contributionCount = 4, date = ''2025-01-06'' \<rparr>] \<rparr>] \<rparr>) = 7"
proof -
  let ?d = "\<lparr> totalContributions = 7,
       weeks = [\<lparr> contributionDays = [\<lparr> contributionCount = 3, date = ''2025-01-04'' \<rparr>] \<rparr>,
                \<lparr> contributionDays = [\<lparr> contributionCount = 0, date = ''2025-01-05'' \<rparr>,
                                      \<lparr> contributionCount = 4, date = ''2025-01-06'' \<rparr>] \<rparr>] \<rparr>"
  have wf: "distinct (map date (all_days ?d))"
    by (simp add: all_days_def)
  have np: "''__proto__'' \<notin> set (map date (all_days ?d))"
    by (simp add: all_days_def)
  have n: "length (all_days ?d) = 3"
    by (simp add: all_days_def)
  from processContributionData_key_count [OF wf np] wf np n show ?thesis
    by simp
qed

subsection \<open>Effects of \<^verbatim>\<open>processContributionData\<close>\<close>

lemma write_day_dict:
  "cell_at h a = Some (Dict m) \<Longrightarrow> write_day a day h = h[a := Dict (record_day day m)]"
  by (simp add: write_day_def record_day_def)

lemma cell_at_update: "a < length h \<Longrightarrow> cell_at (h[a := c]) a = Some c"
  by (simp add: cell_at_def)

lemma fold_write_day:
  "cell_at h a = Some (Dict m) \<Longrightarrow>
   fold (write_day a) ds h = h[a := Dict (fold record_day ds m)]"
proof (induction ds arbitrary: h m)
  case Nil
  then have "a < length h" and "h ! a = Dict m"
    by (simp_all add: cell_at_def split: if_splits)
  then show ?case by (metis fold_simps(1) list_update_id)
next
  case (Cons d ds)
  from Cons.prems have a: "a < length h"
    by (simp add: cell_at_def split: if_splits)
  have "cell_at (h[a := Dict (record_day d m)]) a = Some (Dict (record_day d m))"
    using a by (rule cell_at_update)
  from Cons.IH [OF this] show ?case
    by (simp add: write_day_dict [OF Cons.prems])
qed

lemma fold_write_week:
  "cell_at h a = Some (Dict m) \<Longrightarrow>
   fold (write_week a) ws h = h[a := Dict (fold record_week ws m)]"
proof (induction ws arbitrary: h m)
  case Nil
  then have "a < length h" and "h ! a = Dict m"
    by (simp_all add: cell_at_def split: if_splits)
  then show ?case by (metis fold_simps(1) list_update_id)
next
  case (Cons w ws)
  from Cons.prems have a: "a < length h"
    by (simp add: cell_at_def split: if_splits)
  have "cell_at (h[a := Dict (record_week w m)]) a = Some (Dict (record_week w m))"
    using a by (rule cell_at_update)
  from Cons.IH [OF this] show ?case
    by (simp add: write_week_def record_week_def fold_write_day [OF Cons.prems])
qed

lemma processContributionData_heap_result:
  assumes "cell_at h p = Some (Raw data)"
  shows "processContributionData_heap p h =
           Some (\<lparr> totalContributions_ref = totalContributions_out (processContributionData data),
                   contributionMap_ref = length h \<rparr>,
                 h @ [Dict (contributionMap (processContributionData data))])"
proof -
  have "cell_at (h @ [Dict []]) (length h) = Some (Dict [])"
    by (simp add: cell_at_def)
  from fold_write_week [OF this]
  have "fold (write_week (length h)) (weeks data) (h @ [Dict []])
        = h @ [Dict (fold record_week (weeks data) [])]"
    by simp
  then show ?thesis
    using assms by (simp add: processContributionData_heap_def alloc_def processContributionData_def)
qed

lemma cell_at_append: "cell_at h p = Some c \<Longrightarrow> cell_at (h @ h') p = Some c"
  by (simp add: cell_at_def nth_append split: if_splits)

text \<open>
  Claim C8: \<^verbatim>\<open>processContributionData\<close> has no side effect and returns structurally
  equal results when called twice on the same response. In any store that holds the
  response, both calls return; each leaves every object that existed before it as it
  was, the response included; the two results have the same total and their maps,
  two different objects, have the same content, which is the map of the functional
  model above.
\<close>

theorem processContributionData_pure:
  assumes "cell_at h p = Some (Raw data)"
  shows "\<exists>r1 h1 r2 h2.
           processContributionData_heap p h = Some (r1, h1) \<and>
           processContributionData_heap p h1 = Some (r2, h2) \<and>
           take (length h) h1 = h \<and> take (length h1) h2 = h1 \<and>
           totalContributions_ref r1 = totalContributions_ref r2 \<and>
           cell_at h1 (contributionMap_ref r1) = cell_at h2 (contributionMap_ref r2) \<and>
           cell_at h2 (contributionMap_ref r1) = cell_at h1 (contributionMap_ref r1) \<and>
           cell_at h1 (contributionMap_ref r1) = Some (Dict (contributionMap (processContributionData data))) \<and>
           totalContributions_ref r1 = totalContributions_out (processContributionData data)"
proof -
  let ?cm = "Dict (contributionMap (processContributionData data))"
  let ?h1 = "h @ [?cm]"
  have 1: "processContributionData_heap p h =
           Some (\<lparr> totalContributions_ref = totalContributions_out (processContributionData data),
                   contributionMap_ref = length h \<rparr>, ?h1)"
    using assms by (rule processContributionData_heap_result)
  have "cell_at ?h1 p = Some (Raw data)"
    using assms by (rule cell_at_append)
  then have 2: "processContributionData_heap p ?h1 =
           Some (\<lparr> totalContributions_ref = totalContributions_out (processContributionData data),
                   contributionMap_ref = length ?h1 \<rparr>, ?h1 @ [?cm])"
    by (rule processContributionData_heap_result)
  let ?r1 = "\<lparr> totalContributions_ref = totalContributions_out (processContributionData data),
               contributionMap_ref = length h \<rparr>"
  let ?r2 = "\<lparr> totalContributions_ref = totalContributions_out (processContributionData data),
               contributionMap_ref = length ?h1 \<rparr>"
  let ?h2 = "?h1 @ [?cm]"
  have "processContributionData_heap p h = Some (?r1, ?h1) \<and>
        processContributionData_heap p ?h1 = Some (?r2, ?h2) \<and>
        take (length h) ?h1 = h \<and> take (length ?h1) ?h2 = ?h1 \<and>
        totalContributions_ref ?r1 = totalContributions_ref ?r2 \<and>
        cell_at ?h1 (contributionMap_ref ?r1) = cell_at ?h2 (contributionMap_ref ?r2) \<and>
        cell_at ?h2 (contributionMap_ref ?r1) = cell_at ?h1 (contributionMap_ref ?r1) \<and>
        cell_at ?h1 (contributionMap_ref ?r1) = Some ?cm \<and>
        totalContributions_ref ?r1 = totalContributions_out (processContributionData data)"
    using 1 2 by (simp add: cell_at_def nth_append)
  then show ?thesis by blast
qed

theorem processContributionData_pure_witness:
  "cell_at [Raw \<lparr> totalContributions = 3,
                   weeks = [\<lparr> contributionDays = [\<lparr> contributionCount = 3, date = ''2025-03-01'' \<rparr>] \<rparr>] \<rparr>] 0
   = Some (Raw \<lparr> totalContributions = 3,
                  weeks = [\<lparr> contributionDays = [\<lparr> contributionCount = 3, date = ''2025-03-01'' \<rparr>] \<rparr>] \<rparr>) \<and>
   (\<exists>r1 h1 r2 h2.
      processContributionData_heap 0
        [Raw \<lparr> totalContributions = 3,
               weeks = [\<lparr> contributionDays = [\<lparr> contributionCount = 3, date = ''2025-03-01'' \<rparr>] \<rparr>] \<rparr>]
      = Some (r1, h1) \<and>
      processContributionData_heap 0 h1 = Some (r2, h2) \<and>
      totalContributions_ref r1 = totalContributions_ref r2 \<and>
      cell_at h1 (contributionMap_ref r1) = cell_at h2 (contributionMap_ref r2) \<and>
      cell_at h1 (contributionMap_ref r1) = Some (Dict [(''2025-03-01'', 3)]))"
proof -
  let ?d = "\<lparr> totalContributions = 3,
              weeks = [\<lparr> contributionDays = [\<lparr> contributionCount = 3, date = ''2025-03-01'' \<rparr>] \<rparr>] \<rparr>"
  have held: "cell_at [Raw ?d] 0 = Some (Raw ?d)"
    by (simp add: cell_at_def)
  have m: "contributionMap (processContributionData ?d) = [(''2025-03-01'', 3)]"
    by (simp add: processContributionData_def record_week_def record_day_def obj_set_def)
  from processContributionData_pure [OF held] show ?thesis
    unfolding m using held by blast
qed

subsection \<open>The language map\<close>

lemma own_as_map:
  "distinct (map fst m) \<Longrightarrow> m = map (\<lambda>k. (k, stored (own_get m k))) (map fst m)"
proof (induction m)
  case Nil
  then show ?case by simp
next
  case (Cons p ps)
  obtain k v where p: "p = (k, v)" by (cases p)
  from Cons.prems p have k: "k \<notin> set (map fst ps)" and d: "distinct (map fst ps)"
    by simp_all
  have "map (\<lambda>k'. (k', stored (own_get (p # ps) k'))) (map fst ps)
        = map (\<lambda>k'. (k', stored (own_get ps k'))) (map fst ps)"
    using k by (intro map_cong) (auto simp: p)
  with Cons.IH [OF d] show ?case
    by (simp add: p)
qed

lemma repo_languages_concat:
  "concat (map repo_languages repos)
   = map (\<lambda>e. \<lparr> name = node_name (node e), size_bytes = edge_size e \<rparr>) (all_edges repos)"
  by (induction repos) (simp_all add: repo_languages_def all_edges_def)

lemma fold_add_language_keys:
  "map fst (fold plain_add_language ls m) = fold see (map name ls) (map fst m)"
  by (induction ls arbitrary: m) (simp_all add: plain_add_language_def own_put_see)

lemma fold_add_language_value:
  "stored (own_get (fold plain_add_language ls m) n)
   = stored (own_get m n) + sum_list (map size_bytes (filter (\<lambda>l. name l = n) ls))"
  by (induction ls arbitrary: m) (simp_all add: plain_add_language_def own_get_put)

lemma fold_add_language_sum:
  "sum_list (map snd (fold plain_add_language ls m))
   = sum_list (map snd m) + sum_list (map size_bytes ls)"
  by (induction ls arbitrary: m) (simp_all add: plain_add_language_def sum_own_put)

lemma languageMap_keys:
  "map fst (plain_languageMap repos) = first_occurrences (edge_names repos)"
  by (simp add: plain_languageMap_def fold_add_language_keys repo_languages_concat
      first_occurrences_def edge_names_def o_def)

lemma languageMap_value:
  "stored (own_get (plain_languageMap repos) n) = summed_size repos n"
  by (simp add: plain_languageMap_def fold_add_language_value repo_languages_concat
      summed_size_def filter_map o_def)

lemma languageMap_sum:
  "sum_list (map snd (plain_languageMap repos)) = sum_list (map edge_size (all_edges repos))"
  by (simp add: plain_languageMap_def fold_add_language_sum repo_languages_concat o_def)

lemma languageMap_char:
  "plain_languageMap repos
   = map (\<lambda>n. (n, summed_size repos n)) (first_occurrences (edge_names repos))"
proof -
  have "distinct (map fst (plain_languageMap repos))"
    by (simp add: languageMap_keys first_occurrences_distinct)
  from own_as_map [OF this] show ?thesis
    by (simp add: languageMap_keys languageMap_value)
qed

lemma insort_key_map:
  "insort_key f (g x) (map g ys) = map g (insort_key (\<lambda>y. f (g y)) x ys)"
  by (induction ys) simp_all

lemma sort_key_map: "sort_key f (map g xs) = map g (sort_key (\<lambda>y. f (g y)) xs)"
  by (induction xs) (simp_all add: insort_key_map)

lemma Object_entries_map:
  "Object_entries (map (\<lambda>n. (n, f n)) ks) = map (\<lambda>n. (n, f n)) (enumeration_order ks)"
  by (simp add: Object_entries_def enumeration_order_def filter_map o_def sort_key_map)

lemma enumeration_order_plain:
  "list_all (\<lambda>k. \<not> is_array_index k) ks \<Longrightarrow> enumeration_order ks = ks"
  by (simp add: enumeration_order_def list_all_iff filter_empty_conv)

lemma sortedLanguages_char:
  "sortedLanguages_of (plain_languageMap repos)
   = map (\<lambda>(n, s). \<lparr> name = n, size_bytes = s \<rparr>)
       (Array_sort by_second_desc
          (map (\<lambda>n. (n, summed_size repos n))
             (enumeration_order (first_occurrences (edge_names repos)))))"
  by (simp add: sortedLanguages_of_def languageMap_char Object_entries_map)

lemma sortedLanguages_sorted:
  "sorted_wrt (\<lambda>a b. size_bytes b \<le> size_bytes a) (sortedLanguages_of m)"
  using Array_sort_descending [of "Object_entries m"]
  by (simp add: sortedLanguages_of_def sorted_wrt_map case_prod_beta)

lemma sortedLanguages_ties:
  "map name (filter (\<lambda>l. size_bytes l = s) (sortedLanguages_of (plain_languageMap repos)))
   = filter (\<lambda>n. summed_size repos n = s)
       (enumeration_order (first_occurrences (edge_names repos)))"
proof -
  let ?E = "map (\<lambda>n. (n, summed_size repos n))
              (enumeration_order (first_occurrences (edge_names repos)))"
  have "map name (filter (\<lambda>l. size_bytes l = s) (sortedLanguages_of (plain_languageMap repos)))
        = map fst (filter (\<lambda>p. snd p = s) (Array_sort by_second_desc ?E))"
    by (simp add: sortedLanguages_char filter_map o_def case_prod_beta)
  also have "\<dots> = map fst (filter (\<lambda>p. snd p = s) ?E)"
    by (simp only: Array_sort_stable)
  also have "\<dots> = filter (\<lambda>n. summed_size repos n = s)
                      (enumeration_order (first_occurrences (edge_names repos)))"
    by (simp add: filter_map o_def)
  finally show ?thesis .
qed

subsection \<open>The language steps on names that are not inherited\<close>

lemma add_language_ordinary:
  "\<not> inherited (name lang) \<Longrightarrow> add_language lang m = Some (plain_add_language lang m)"
  by (simp add: add_language_def plain_add_language_def obj_assign_ordinary)

lemma add_languages_ordinary:
  "list_all (\<lambda>l. \<not> inherited (name l)) ls \<Longrightarrow>
   add_languages ls (Some m) = Some (fold plain_add_language ls m)"
proof (induction ls arbitrary: m)
  case Nil
  then show ?case by (simp add: add_languages_def)
next
  case (Cons l ls)
  then have "add_languages ls (Some (plain_add_language l m))
             = Some (fold plain_add_language ls (plain_add_language l m))"
    by simp
  with Cons.prems show ?case
    by (simp add: add_languages_def add_language_ordinary)
qed

lemma add_languages_append:
  "add_languages (xs @ ys) acc = add_languages ys (add_languages xs acc)"
  by (simp add: add_languages_def)

lemma fold_repo_step_fst:
  "fst (fold repo_step repos st) = add_languages (concat (map repo_languages repos)) (fst st)"
proof (induction repos arbitrary: st)
  case Nil
  then show ?case by (simp add: add_languages_def)
next
  case (Cons r rs)
  have "fst (repo_step r st) = add_languages (repo_languages r) (fst st)"
    by (simp add: repo_step_def Let_def)
  then show ?case
    by (simp add: Cons.IH add_languages_append)
qed

lemma ordinary_names:
  "list_all (\<lambda>n. \<not> inherited n) (edge_names repos) \<Longrightarrow>
   list_all (\<lambda>l. \<not> inherited (name l)) (concat (map repo_languages repos))"
  by (simp add: repo_languages_concat edge_names_def list_all_iff)

lemma processRepoLanguages_ordinary:
  assumes "list_all (\<lambda>n. \<not> inherited n) (edge_names repos)"
  shows "processRepoLanguages repos =
           Some \<lparr> topLanguages = sortedLanguages_of (plain_languageMap repos),
                  repoDetails = snd (fold repo_step repos (Some [], [])) \<rparr>"
proof -
  have "fst (fold repo_step repos (Some [], [])) = Some (plain_languageMap repos)"
    using add_languages_ordinary [OF ordinary_names [OF assms], of "[]"]
    by (simp add: fold_repo_step_fst plain_languageMap_def)
  then show ?thesis
    by (simp add: processRepoLanguages_def Let_def)
qed

subsection \<open>The ranking by byte size\<close>

lemma array_index_1: "is_array_index ''1''"
  by (simp add: is_array_index_def is_digit_def numeric_value_def digit_value_def)

lemma array_index_B: "\<not> is_array_index ''B''"
  by (simp add: is_array_index_def is_digit_def)

lemma tie_example_output:
  "processRepoLanguages [example_repo ''r'' [(''B'', 5), (''1'', 5)]]
   = Some \<lparr> topLanguages = [\<lparr> name = ''1'', size_bytes = 5 \<rparr>, \<lparr> name = ''B'', size_bytes = 5 \<rparr>],
            repoDetails = [\<lparr> detail_name = ''r'', stars = 0, detail_languages = [''B'', ''1''] \<rparr>] \<rparr>"
  by (simp add: processRepoLanguages_def repo_step_def repo_languages_def example_repo_def Let_def
      add_languages_def add_language_def obj_assign_def obj_get_def inherited_def
      Object_prototype_names_def sortedLanguages_of_def Object_entries_def
      array_index_1 array_index_B Array_sort_def by_second_desc_def)

lemma tie_example_encounter:
  "first_occurrences (edge_names [example_repo ''r'' [(''B'', 5), (''1'', 5)]]) = [''B'', ''1'']"
  by (simp add: first_occurrences_def edge_names_def all_edges_def example_repo_def see_def)

text \<open>
  Claim C4 says that the ranking is descending by summed size and that of two languages
  with equal sums the one first encountered comes first. The second part fails for a
  language whose name is an array index: the languages \<^verbatim>\<open>B\<close> and \<^verbatim>\<open>1\<close>, both of
  5 bytes and encountered in this order, are ranked \<^verbatim>\<open>1\<close> before \<^verbatim>\<open>B\<close>, since
  the language map enumerates the key \<^verbatim>\<open>1\<close> first.
\<close>

theorem topLanguages_tie_order_counterexample:
  "\<not> (\<exists>r. processRepoLanguages [example_repo ''r'' [(''B'', 5), (''1'', 5)]] = Some r \<and>
          sorted_wrt (\<lambda>a b. size_bytes b \<le> size_bytes a) (topLanguages r) \<and>
          (\<forall>s. map name (filter (\<lambda>l. size_bytes l = s) (topLanguages r))
               = filter (\<lambda>n. summed_size [example_repo ''r'' [(''B'', 5), (''1'', 5)]] n = s)
                   (first_occurrences (edge_names [example_repo ''r'' [(''B'', 5), (''1'', 5)]]))))"
proof
  let ?cx = "[example_repo ''r'' [(''B'', 5), (''1'', 5)]]"
  assume "\<exists>r. processRepoLanguages ?cx = Some r \<and>
          sorted_wrt (\<lambda>a b. size_bytes b \<le> size_bytes a) (topLanguages r) \<and>
          (\<forall>s. map name (filter (\<lambda>l. size_bytes l = s) (topLanguages r))
               = filter (\<lambda>n. summed_size ?cx n = s) (first_occurrences (edge_names ?cx)))"
  then obtain r where r: "processRepoLanguages ?cx = Some r"
    and ties: "map name (filter (\<lambda>l. size_bytes l = 5) (topLanguages r))
               = filter (\<lambda>n. summed_size ?cx n = 5) (first_occurrences (edge_names ?cx))"
    by blast
  from r have "topLanguages r = [\<lparr> name = ''1'', size_bytes = 5 \<rparr>, \<lparr> name = ''B'', size_bytes = 5 \<rparr>]"
    unfolding tie_example_output by auto
  with ties show False
    unfolding tie_example_encounter
    by (simp add: summed_size_def all_edges_def example_repo_def)
qed

text \<open>
  Claim C4 as amended: for every repository list in which no language has the name of a
  property of \<^verbatim>\<open>Object.prototype\<close>, the ranking is descending by summed size, and the
  languages of equal summed size stand in the order in which the language map enumerates
  them: the names that are array indices first, in ascending numeric order, then the
  other names in the order in which they were first encountered. When moreover no
  language name is an array index, of two languages with equal sums the one first
  encountered comes first.
\<close>

theorem topLanguages_order:
  assumes "list_all (\<lambda>n. \<not> inherited n) (edge_names repos)"
  shows "\<exists>r. processRepoLanguages repos = Some r \<and>
           sorted_wrt (\<lambda>a b. size_bytes b \<le> size_bytes a) (topLanguages r) \<and>
           (\<forall>s. map name (filter (\<lambda>l. size_bytes l = s) (topLanguages r))
                = filter (\<lambda>n. summed_size repos n = s)
                    (enumeration_order (first_occurrences (edge_names repos)))) \<and>
           (list_all (\<lambda>n. \<not> is_array_index n) (edge_names repos) \<longrightarrow>
            (\<forall>s. map name (filter (\<lambda>l. size_bytes l = s) (topLanguages r))
                 = filter (\<lambda>n. summed_size repos n = s) (first_occurrences (edge_names repos))))"
proof -
  let ?top = "sortedLanguages_of (plain_languageMap repos)"
  let ?r = "\<lparr> topLanguages = ?top, repoDetails = snd (fold repo_step repos (Some [], [])) \<rparr>"
  have r: "processRepoLanguages repos = Some ?r"
    using assms by (rule processRepoLanguages_ordinary)
  have sorted: "sorted_wrt (\<lambda>a b. size_bytes b \<le> size_bytes a) ?top"
    by (rule sortedLanguages_sorted)
  have ties: "map name (filter (\<lambda>l. size_bytes l = s) ?top)
              = filter (\<lambda>n. summed_size repos n = s)
                  (enumeration_order (first_occurrences (edge_names repos)))" for s
    by (rule sortedLanguages_ties)
  have first: "map name (filter (\<lambda>l. size_bytes l = s) ?top)
               = filter (\<lambda>n. summed_size repos n = s) (first_occurrences (edge_names repos))"
    if "list_all (\<lambda>n. \<not> is_array_index n) (edge_names repos)" for s
  proof -
    from that have "list_all (\<lambda>n. \<not> is_array_index n) (first_occurrences (edge_names repos))"
      by (simp add: list_all_iff first_occurrences_set)
    then show ?thesis
      by (simp add: ties enumeration_order_plain)
  qed
  have "processRepoLanguages repos = Some ?r \<and>
        sorted_wrt (\<lambda>a b. size_bytes b \<le> size_bytes a) (topLanguages ?r) \<and>
        (\<forall>s. map name (filter (\<lambda>l. size_bytes l = s) (topLanguages ?r))
             = filter (\<lambda>n. summed_size repos n = s)
                 (enumeration_order (first_occurrences (edge_names repos)))) \<and>
        (list_all (\<lambda>n. \<not> is_array_index n) (edge_names repos) \<longrightarrow>
         (\<forall>s. map name (filter (\<lambda>l. size_bytes l = s) (topLanguages ?r))
              = filter (\<lambda>n. summed_size repos n = s) (first_occurrences (edge_names repos))))"
    using r sorted ties first by simp
  then show ?thesis by (rule exI)
qed

theorem topLanguages_order_witness:
  "list_all (\<lambda>n. \<not> inherited n)
     (edge_names [example_repo ''a'' [(''Rust'', 5), (''Go'', 7)], example_repo ''b'' [(''C'', 5)]]) \<and>
   list_all (\<lambda>n. \<not> is_array_index n)
     (edge_names [example_repo ''a'' [(''Rust'', 5), (''Go'', 7)], example_repo ''b'' [(''C'', 5)]]) \<and>
   (\<exists>r. processRepoLanguages
           [example_repo ''a'' [(''Rust'', 5), (''Go'', 7)], example_repo ''b'' [(''C'', 5)]] = Some r \<and>
         map name (filter (\<lambda>l. size_bytes l = 5) (topLanguages r)) = [''Rust'', ''C''])"
proof -
  let ?repos = "[example_repo ''a'' [(''Rust'', 5), (''Go'', 7)], example_repo ''b'' [(''C'', 5)]]"
  have names: "edge_names ?repos = [''Rust'', ''Go'', ''C'']"
    by (simp add: edge_names_def all_edges_def example_repo_def)
  have ordinary: "list_all (\<lambda>n. \<not> inherited n) (edge_names ?repos)"
    unfolding names by (simp add: inherited_def Object_prototype_names_def)
  have plain: "list_all (\<lambda>n. \<not> is_array_index n) (edge_names ?repos)"
    unfolding names by (simp add: is_array_index_def is_digit_def)
  have order: "filter (\<lambda>n. summed_size ?repos n = 5) (first_occurrences (edge_names ?repos))
               = [''Rust'', ''C'']"
    unfolding names
    by (simp add: first_occurrences_def see_def summed_size_def all_edges_def example_repo_def)
  from topLanguages_order [OF ordinary] plain obtain r
    where r: "processRepoLanguages ?repos = Some r"
      and ties: "map name (filter (\<lambda>l. size_bytes l = 5) (topLanguages r))
                 = filter (\<lambda>n. summed_size ?repos n = 5) (first_occurrences (edge_names ?repos))"
    by blast
  from ties have "map name (filter (\<lambda>l. size_bytes l = 5) (topLanguages r)) = [''Rust'', ''C'']"
    unfolding order .
  with r have "\<exists>r. processRepoLanguages ?repos = Some r \<and>
                 map name (filter (\<lambda>l. size_bytes l = 5) (topLanguages r)) = [''Rust'', ''C'']"
    by (intro exI [of _ r] conjI)
  with ordinary plain show ?thesis
    by (intro conjI)
qed

lemma count_list_distinct: "distinct xs \<Longrightarrow> count_list xs x = (if x \<in> set xs then 1 else 0)"
  by (induction xs) auto

lemma proto_example_output:
  "processRepoLanguages [example_repo ''r'' [(''__proto__'', 5), (''Go'', 7)]]
   = Some \<lparr> topLanguages = [\<lparr> name = ''Go'', size_bytes = 7 \<rparr>],
            repoDetails = [\<lparr> detail_name = ''r'', stars = 0,
                             detail_languages = [''__proto__'', ''Go''] \<rparr>] \<rparr>"
  by (simp add: processRepoLanguages_def repo_step_def repo_languages_def example_repo_def Let_def
      add_languages_def add_language_def obj_assign_def obj_get_def inherited_def
      Object_prototype_names_def sortedLanguages_of_def Object_entries_def
      is_array_index_def is_digit_def Array_sort_def by_second_desc_def)

text \<open>
  A language named \<^verbatim>\<open>constructor\<close> reads as the inherited function; the sum is a
  string, which becomes a value of the map, and the model follows the code no further.
\<close>

lemma constructor_example_output:
  "processRepoLanguages [example_repo ''r'' [(''constructor'', 5), (''Go'', 7)]] = None"
  by (simp add: processRepoLanguages_def repo_step_def repo_languages_def example_repo_def Let_def
      add_languages_def add_language_def obj_assign_def obj_get_def inherited_def
      Object_prototype_names_def)

text \<open>
  Claim C10 says that the sizes of the ranking add up to the sizes of all language
  edges and that every language name of an edge is listed exactly once. For a language
  named \<^verbatim>\<open>__proto__\<close> neither holds: the sum that the step computes is a string, the
  assignment to \<^verbatim>\<open>__proto__\<close> is ignored, and the ranking of the edges \<^verbatim>\<open>__proto__\<close>
  with 5 bytes and \<^verbatim>\<open>Go\<close> with 7 bytes lists \<^verbatim>\<open>Go\<close> only, 7 bytes of the 12.
\<close>

theorem topLanguages_conservation_counterexample:
  "\<not> (\<exists>r. processRepoLanguages [example_repo ''r'' [(''__proto__'', 5), (''Go'', 7)]] = Some r \<and>
          sum_list (map size_bytes (topLanguages r))
            = sum_list (map edge_size (all_edges [example_repo ''r'' [(''__proto__'', 5), (''Go'', 7)]])) \<and>
          (\<forall>n. count_list (map name (topLanguages r)) n
               = (if n \<in> set (edge_names [example_repo ''r'' [(''__proto__'', 5), (''Go'', 7)]])
                  then 1 else 0)))"
proof
  let ?cx = "[example_repo ''r'' [(''__proto__'', 5), (''Go'', 7)]]"
  assume "\<exists>r. processRepoLanguages ?cx = Some r \<and>
          sum_list (map size_bytes (topLanguages r)) = sum_list (map edge_size (all_edges ?cx)) \<and>
          (\<forall>n. count_list (map name (topLanguages r)) n
               = (if n \<in> set (edge_names ?cx) then 1 else 0))"
  then obtain r where r: "processRepoLanguages ?cx = Some r"
    and total: "sum_list (map size_bytes (topLanguages r)) = sum_list (map edge_size (all_edges ?cx))"
    by blast
  from r have "topLanguages r = [\<lparr> name = ''Go'', size_bytes = 7 \<rparr>]"
    unfolding proto_example_output by auto
  with total show False
    by (simp add: all_edges_def example_repo_def)
qed

text \<open>
  Claim C10 as amended: for every repository list in which no language has the name of
  a property of \<^verbatim>\<open>Object.prototype\<close>, the sizes of the ranking add up to the sizes of
  all language edges of all repositories, and a name is listed once if it occurs in an
  edge and not at all otherwise.
\<close>

theorem topLanguages_conserves_sizes:
  assumes "list_all (\<lambda>n. \<not> inherited n) (edge_names repos)"
  shows "\<exists>r. processRepoLanguages repos = Some r \<and>
           sum_list (map size_bytes (topLanguages r)) = sum_list (map edge_size (all_edges repos)) \<and>
           (\<forall>n. count_list (map name (topLanguages r)) n
                = (if n \<in> set (edge_names repos) then 1 else 0))"
proof -
  let ?E = "Array_sort by_second_desc (Object_entries (plain_languageMap repos))"
  let ?top = "sortedLanguages_of (plain_languageMap repos)"
  let ?r = "\<lparr> topLanguages = ?top, repoDetails = snd (fold repo_step repos (Some [], [])) \<rparr>"
  have r: "processRepoLanguages repos = Some ?r"
    using assms by (rule processRepoLanguages_ordinary)
  have m: "mset ?E = mset (plain_languageMap repos)"
    by (simp add: Array_sort_mset Object_entries_mset)
  have "sum_list (map size_bytes ?top) = sum_list (map snd ?E)"
    by (simp add: sortedLanguages_of_def o_def case_prod_beta)
  also have "\<dots> = sum_mset (image_mset snd (mset ?E))"
    by (simp flip: sum_mset_sum_list)
  also have "\<dots> = sum_list (map snd (plain_languageMap repos))"
    by (simp add: m flip: sum_mset_sum_list)
  finally have total: "sum_list (map size_bytes ?top) = sum_list (map edge_size (all_edges repos))"
    by (simp add: languageMap_sum)
  have names: "map name ?top = map fst ?E"
    by (simp add: sortedLanguages_of_def o_def case_prod_beta)
  have "mset (map fst ?E) = mset (first_occurrences (edge_names repos))"
    using m by (metis languageMap_keys mset_map)
  then have "distinct (map fst ?E)" and "set (map fst ?E) = set (edge_names repos)"
    by (metis first_occurrences_distinct mset_eq_imp_distinct_iff,
        metis first_occurrences_set mset_eq_setD)
  then have once: "count_list (map name ?top) n = (if n \<in> set (edge_names repos) then 1 else 0)"
    for n
    by (simp add: names count_list_distinct)
  have "processRepoLanguages repos = Some ?r \<and>
        sum_list (map size_bytes (topLanguages ?r)) = sum_list (map edge_size (all_edges repos)) \<and>
        (\<forall>n. count_list (map name (topLanguages ?r)) n
             = (if n \<in> set (edge_names repos) then 1 else 0))"
    using r total once by simp
  then show ?thesis by (rule exI)
qed

theorem topLanguages_conserves_sizes_witness:
  "list_all (\<lambda>n. \<not> inherited n)
     (edge_names [example_repo ''a'' [(''Go'', 7), (''C'', 2)], example_repo ''b'' [(''Go'', 3)]]) \<and>
   (\<exists>r. processRepoLanguages
           [example_repo ''a'' [(''Go'', 7), (''C'', 2)], example_repo ''b'' [(''Go'', 3)]] = Some r \<and>
         sum_list (map size_bytes (topLanguages r)) = 12 \<and>
         count_list (map name (topLanguages r)) ''Go'' = 1)"
proof -
  let ?repos = "[example_repo ''a'' [(''Go'', 7), (''C'', 2)], example_repo ''b'' [(''Go'', 3)]]"
  have names: "edge_names ?repos = [''Go'', ''C'', ''Go'']"
    by (simp add: edge_names_def all_edges_def example_repo_def)
  have ordinary: "list_all (\<lambda>n. \<not> inherited n) (edge_names ?repos)"
    unfolding names by (simp add: inherited_def Object_prototype_names_def)
  have total: "sum_list (map edge_size (all_edges ?repos)) = 12"
    by (simp add: all_edges_def example_repo_def)
  from topLanguages_conserves_sizes [OF ordinary] obtain r
    where r: "processRepoLanguages ?repos = Some r"
      and s: "sum_list (map size_bytes (topLanguages r)) = sum_list (map edge_size (all_edges ?repos))"
      and c: "count_list (map name (topLanguages r)) ''Go''
              = (if ''Go'' \<in> set (edge_names ?repos) then 1 else 0)"
    by blast
  from s have "sum_list (map size_bytes (topLanguages r)) = 12"
    unfolding total .
  moreover from c have "count_list (map name (topLanguages r)) ''Go'' = 1"
    unfolding names by simp
  ultimately have "\<exists>r. processRepoLanguages ?repos = Some r \<and>
                     sum_list (map size_bytes (topLanguages r)) = 12 \<and>
                     count_list (map name (topLanguages r)) ''Go'' = 1"
    using r by (intro exI [of _ r] conjI)
  with ordinary show ?thesis
    by (intro conjI)
qed

subsection \<open>The ranking by repository count\<close>

lemma own_put_keys_set: "fst ` set (own_put m k v) = insert k (fst ` set m)"
proof -
  have "set (map fst (own_put m k v)) = insert k (set (map fst m))"
    unfolding own_put_keys by auto
  then show ?thesis by simp
qed

lemma count_language_keys_set:
  "fst ` set (plain_count_language r m)
   = fst ` set m \<union> {l. l \<noteq> [] \<and> Some l = language r}"
  by (cases "language r") (auto simp: plain_count_language_def own_put_keys_set)

lemma fold_count_language_keys_set:
  "fst ` set (fold plain_count_language rs m)
   = fst ` set m \<union> {l. l \<noteq> [] \<and> Some l \<in> language ` set rs}"
proof (induction rs arbitrary: m)
  case Nil
  then show ?case by simp
next
  case (Cons r rs)
  have "{l. l \<noteq> [] \<and> Some l \<in> language ` set (r # rs)}
        = {l. l \<noteq> [] \<and> Some l = language r} \<union> {l. l \<noteq> [] \<and> Some l \<in> language ` set rs}"
    by auto
  then show ?case
    by (simp add: Cons.IH count_language_keys_set Un_assoc)
qed

lemma fold_count_language_distinct:
  "distinct (map fst m) \<Longrightarrow> distinct (map fst (fold plain_count_language rs m))"
  by (induction rs arbitrary: m)
     (simp_all add: plain_count_language_def own_put_distinct split: option.splits)

lemma fold_count_language_value:
  "l \<noteq> [] \<Longrightarrow>
   stored (own_get (fold plain_count_language rs m) l)
   = stored (own_get m l) + repos_with_language rs l"
  by (induction rs arbitrary: m)
     (auto simp: plain_count_language_def own_get_put repos_with_language_def split: option.splits)

lemma own_entry_value:
  "distinct (map fst m) \<Longrightarrow> (k, v) \<in> set m \<Longrightarrow> stored (own_get m k) = v"
  by (induction m) (auto simp: rev_image_eqI)

lemma ranked_mset: "mset (ranked_by_count repos) = mset (plain_languageCount repos)"
  by (simp add: ranked_by_count_def Array_sort_mset Object_entries_mset)

lemma ranked_props:
  "distinct (map fst (ranked_by_count repos))"
  "set (map fst (ranked_by_count repos)) = {l. l \<noteq> [] \<and> Some l \<in> language ` set repos}"
  "(l, c) \<in> set (ranked_by_count repos) \<Longrightarrow> c = repos_with_language repos l"
  "sorted_wrt (\<lambda>a b. snd b \<le> snd a) (ranked_by_count repos)"
proof -
  have d: "distinct (map fst (plain_languageCount repos))"
    by (simp add: plain_languageCount_def fold_count_language_distinct)
  have m: "mset (map fst (ranked_by_count repos)) = mset (map fst (plain_languageCount repos))"
    by (simp add: ranked_mset)
  show "distinct (map fst (ranked_by_count repos))"
    using d m by (metis mset_eq_imp_distinct_iff)
  have "set (map fst (ranked_by_count repos)) = set (map fst (plain_languageCount repos))"
    using m by (rule mset_eq_setD)
  then show s: "set (map fst (ranked_by_count repos))
                = {l. l \<noteq> [] \<and> Some l \<in> language ` set repos}"
    by (simp add: plain_languageCount_def fold_count_language_keys_set)
  show "sorted_wrt (\<lambda>a b. snd b \<le> snd a) (ranked_by_count repos)"
    by (simp add: ranked_by_count_def Array_sort_descending)
  assume lc: "(l, c) \<in> set (ranked_by_count repos)"
  then have in_m: "(l, c) \<in> set (plain_languageCount repos)"
    using ranked_mset [of repos] by (metis mset_eq_setD)
  from lc have "l \<in> set (map fst (ranked_by_count repos))"
    by (simp add: rev_image_eqI)
  with s have "l \<noteq> []" by simp
  then have "stored (own_get (plain_languageCount repos) l) = repos_with_language repos l"
    by (simp add: plain_languageCount_def fold_count_language_value)
  with own_entry_value [OF d in_m] show "c = repos_with_language repos l"
    by simp
qed

lemma count_language_ordinary:
  "ordinary_language repo \<Longrightarrow> count_language repo m = Some (plain_count_language repo m)"
  by (cases "language repo")
     (simp_all add: count_language_def plain_count_language_def ordinary_language_def
        obj_assign_ordinary)

lemma count_languages_ordinary:
  "list_all ordinary_language repos \<Longrightarrow>
   count_languages repos (Some m) = Some (fold plain_count_language repos m)"
proof (induction repos arbitrary: m)
  case Nil
  then show ?case by (simp add: count_languages_def)
next
  case (Cons r rs)
  then have "count_languages rs (Some (plain_count_language r m))
             = Some (fold plain_count_language rs (plain_count_language r m))"
    by simp
  with Cons.prems show ?case
    by (simp add: count_languages_def count_language_ordinary)
qed

lemma fetchTopLanguages_ok:
  "ok response \<Longrightarrow> list_all ordinary_language (json response) \<Longrightarrow>
   fetchTopLanguages response = Inr (Some (take 5 (ranked_by_count (json response))))"
  by (simp add: fetchTopLanguages_def ranked_by_count_def plain_languageCount_def
      count_languages_ordinary)

lemma fetchTopLanguages_example:
  "fetchTopLanguages
     \<lparr> ok = True,
       json = [\<lparr> language = Some ''Go'' \<rparr>, \<lparr> language = Some ''Go'' \<rparr>,
               \<lparr> language = None \<rparr>, \<lparr> language = Some ''Rust'' \<rparr>] \<rparr>
   = Inr (Some [(''Go'', 2), (''Rust'', 1)])"
  by (simp add: fetchTopLanguages_def count_languages_def count_language_def obj_assign_def
      obj_get_def inherited_def Object_prototype_names_def Object_entries_def
      is_array_index_def is_digit_def Array_sort_def by_second_desc_def)

lemma fetchTopLanguages_proto_example:
  "fetchTopLanguages
     \<lparr> ok = True, json = [\<lparr> language = Some ''__proto__'' \<rparr>, \<lparr> language = Some ''Go'' \<rparr>] \<rparr>
   = Inr (Some [(''Go'', 1)])"
  by (simp add: fetchTopLanguages_def count_languages_def count_language_def obj_assign_def
      obj_get_def inherited_def Object_prototype_names_def Object_entries_def
      is_array_index_def is_digit_def Array_sort_def by_second_desc_def)

text \<open>
  Claim C6 says that \<^verbatim>\<open>fetchTopLanguages\<close> leaves out the repositories whose language
  is \<^verbatim>\<open>null\<close> or absent and counts the repositories of every primary language. A
  repository whose language is named \<^verbatim>\<open>__proto__\<close> is left out as well: the count
  computed for it is a string and the assignment to \<^verbatim>\<open>__proto__\<close> is ignored, so the
  listing \<^verbatim>\<open>__proto__\<close>, \<^verbatim>\<open>Go\<close> gives \<^verbatim>\<open>Go\<close> with 1 and nothing else.
\<close>

theorem fetchTopLanguages_ranking_counterexample:
  "\<not> (\<exists>ranked.
        fetchTopLanguages
          \<lparr> ok = True, json = [\<lparr> language = Some ''__proto__'' \<rparr>, \<lparr> language = Some ''Go'' \<rparr>] \<rparr>
        = Inr (Some (take 5 ranked)) \<and>
        distinct (map fst ranked) \<and>
        set (map fst ranked)
        = {l. l \<noteq> [] \<and> Some l \<in> language ` set [\<lparr> language = Some ''__proto__'' \<rparr>,
                                                   \<lparr> language = Some ''Go'' \<rparr>]} \<and>
        (\<forall>(l, c) \<in> set ranked.
           c = repos_with_language [\<lparr> language = Some ''__proto__'' \<rparr>, \<lparr> language = Some ''Go'' \<rparr>] l) \<and>
        sorted_wrt (\<lambda>a b. snd b \<le> snd a) ranked)"
proof
  let ?repos = "[\<lparr> language = Some ''__proto__'' \<rparr>, \<lparr> language = Some ''Go'' \<rparr>]"
  assume "\<exists>ranked.
        fetchTopLanguages \<lparr> ok = True, json = ?repos \<rparr> = Inr (Some (take 5 ranked)) \<and>
        distinct (map fst ranked) \<and>
        set (map fst ranked) = {l. l \<noteq> [] \<and> Some l \<in> language ` set ?repos} \<and>
        (\<forall>(l, c) \<in> set ranked. c = repos_with_language ?repos l) \<and>
        sorted_wrt (\<lambda>a b. snd b \<le> snd a) ranked"
  then obtain ranked
    where f: "fetchTopLanguages \<lparr> ok = True, json = ?repos \<rparr> = Inr (Some (take 5 ranked))"
      and d: "distinct (map fst ranked)"
      and ks: "set (map fst ranked) = {l. l \<noteq> [] \<and> Some l \<in> language ` set ?repos}"
    by blast
  have "{l. l \<noteq> [] \<and> Some l \<in> language ` set ?repos} = {''__proto__'', ''Go''}"
    by auto
  with ks have names: "set (map fst ranked) = {''__proto__'', ''Go''}"
    by simp
  have "length (map fst ranked) = card (set (map fst ranked))"
    using d by (simp only: distinct_card)
  also have "\<dots> = 2"
    unfolding names by simp
  finally have "take 5 ranked = ranked"
    by simp
  with f have "ranked = [(''Go'', 1)]"
    unfolding fetchTopLanguages_proto_example by simp
  with names show False
    by auto
qed

text \<open>
  Claim C6 as amended: when the request succeeded and no repository reports a language
  with the name of a property of \<^verbatim>\<open>Object.prototype\<close>, \<^verbatim>\<open>fetchTopLanguages\<close> returns
  the first five entries, or all if there are fewer, of a ranking that lists every
  primary language of the listing once, a repository without a language (\<^verbatim>\<open>null\<close>,
  absent or empty) counting for none, each with the number of repositories that report
  it, in descending order of that number; on the listing Go, Go, \<^verbatim>\<open>null\<close>, Rust the
  result is Go with 2 and Rust with 1.
\<close>

theorem fetchTopLanguages_ranking:
  "(ok response \<and> list_all ordinary_language (json response) \<longrightarrow>
     (\<exists>ranked.
        fetchTopLanguages response = Inr (Some (take 5 ranked)) \<and>
        distinct (map fst ranked) \<and>
        set (map fst ranked) = {l. l \<noteq> [] \<and> Some l \<in> language ` set (json response)} \<and>
        (\<forall>(l, c) \<in> set ranked. c = repos_with_language (json response) l) \<and>
        sorted_wrt (\<lambda>a b. snd b \<le> snd a) ranked)) \<and>
   fetchTopLanguages
     \<lparr> ok = True,
       json = [\<lparr> language = Some ''Go'' \<rparr>, \<lparr> language = Some ''Go'' \<rparr>,
               \<lparr> language = None \<rparr>, \<lparr> language = Some ''Rust'' \<rparr>] \<rparr>
   = Inr (Some [(''Go'', 2), (''Rust'', 1)])"
proof (intro conjI impI)
  assume "ok response \<and> list_all ordinary_language (json response)"
  then have "fetchTopLanguages response = Inr (Some (take 5 (ranked_by_count (json response))))"
    by (simp add: fetchTopLanguages_ok)
  moreover have "\<forall>(l, c) \<in> set (ranked_by_count (json response)).
                   c = repos_with_language (json response) l"
    using ranked_props(3) by blast
  ultimately show "\<exists>ranked.
        fetchTopLanguages response = Inr (Some (take 5 ranked)) \<and>
        distinct (map fst ranked) \<and>
        set (map fst ranked) = {l. l \<noteq> [] \<and> Some l \<in> language ` set (json response)} \<and>
        (\<forall>(l, c) \<in> set ranked. c = repos_with_language (json response) l) \<and>
        sorted_wrt (\<lambda>a b. snd b \<le> snd a) ranked"
    using ranked_props(1,2,4) by blast
next
  show "fetchTopLanguages
     \<lparr> ok = True,
       json = [\<lparr> language = Some ''Go'' \<rparr>, \<lparr> language = Some ''Go'' \<rparr>,
               \<lparr> language = None \<rparr>, \<lparr> language = Some ''Rust'' \<rparr>] \<rparr>
   = Inr (Some [(''Go'', 2), (''Rust'', 1)])"
    by (rule fetchTopLanguages_example)
qed

theorem fetchTopLanguages_ranking_witness:
  "ok \<lparr> ok = True, json = [\<lparr> language = Some ''TypeScript'' \<rparr>, \<lparr> language = None \<rparr>] \<rparr> \<and>
   list_all ordinary_language [\<lparr> language = Some ''TypeScript'' \<rparr>, \<lparr> language = None \<rparr>] \<and>
   (\<exists>ranked.
      fetchTopLanguages
        \<lparr> ok = True, json = [\<lparr> language = Some ''TypeScript'' \<rparr>, \<lparr> language = None \<rparr>] \<rparr>
      = Inr (Some (take 5 ranked)) \<and>
      set (map fst ranked) = {''TypeScript''} \<and>
      sorted_wrt (\<lambda>a b. snd b \<le> snd a) ranked)"
proof -
  let ?r = "\<lparr> ok = True, json = [\<lparr> language = Some ''TypeScript'' \<rparr>, \<lparr> language = None \<rparr>] \<rparr>"
  have o: "ok ?r" by simp
  have ord: "list_all ordinary_language (json ?r)"
    by (simp add: ordinary_language_def inherited_def Object_prototype_names_def)
  have "{l. l \<noteq> [] \<and> Some l \<in> language ` set (json ?r)} = {''TypeScript''}"
    by auto
  with fetchTopLanguages_ranking [of ?r] o ord
  have "\<exists>ranked. fetchTopLanguages ?r = Inr (Some (take 5 ranked)) \<and>
          set (map fst ranked) = {''TypeScript''} \<and>
          sorted_wrt (\<lambda>a b. snd b \<le> snd a) ranked"
    by auto
  with o ord show ?thesis
    by simp
qed


section \<open>The dashboard's derived data\<close>

subsection \<open>Statistics of the empty map\<close>

lemma Object_entries_Nil: "Object_entries [] = []"
  by (simp add: Object_entries_def)

text \<open>
  Claim C1 says that for the empty contribution map the statistics are an average of 0,
  0 active days and a maximum of 0, and that nothing is raised. The computation raises
  nothing and counts 0 active days, but it has no case for the empty map: the average is
  the quotient of the total by the length 0, that is \<^verbatim>\<open>NaN\<close> for a total of 0 and an
  infinity otherwise, and the maximum of no value is \<^verbatim>\<open>-Infinity\<close>.
\<close>

theorem stats_empty_map:
  "stats round1 [] t =
     \<lparr> totalContributions_stat = t,
       averageDaily = (if t = 0 then NaN else if 0 < t then Infinity else NegInfinity),
       daysWithContributions = 0,
       maxDaily = NegInfinity \<rparr>"
  by (simp add: stats_def Object_values_def Object_entries_Nil divide_by_length_def)

lemma stats_empty_map_not_zero:
  "averageDaily (stats round1 [] 0) \<noteq> Finite 0 \<and> maxDaily (stats round1 [] 0) \<noteq> Finite 0"
  by (simp add: stats_def Object_values_def Object_entries_Nil divide_by_length_def)

subsection \<open>Cumulative series\<close>

lemma cumulative_at_sum:
  "cumulative_at ps i = sum_list (map contributions (take (Suc i) ps))"
proof -
  have "foldl (\<lambda>sum curr. sum + contributions curr) a xs = a + sum_list (map contributions xs)"
    for a :: int and xs :: "DailyPoint list"
    by (induction xs arbitrary: a) simp_all
  then show ?thesis
    by (simp add: cumulative_at_def Array_reduce_def Array_slice_def)
qed

lemma sum_list_take_index:
  "i < length xs \<Longrightarrow> sum_list (take (Suc i) xs) = (\<Sum>j \<le> i. xs ! j :: int)"
proof (induction i)
  case 0
  then show ?case by (cases xs) simp_all
next
  case (Suc i)
  then show ?case by (simp add: take_Suc_conv_app_nth)
qed

lemma lineChartData_length: "length (lineChartData ps) = length ps"
  by (simp add: lineChartData_def)

lemma lineChartData_nth:
  "i < length ps \<Longrightarrow> lineChartData ps ! i =
     \<lparr> point_date = point_date (ps ! i), contributions = contributions (ps ! i),
       cumulative = cumulative_at ps i \<rparr>"
  by (simp add: lineChartData_def)

lemma lineChartData_example:
  "map cumulative (lineChartData
     [\<lparr> point_date = ''d1'', contributions = 2 \<rparr>,
      \<lparr> point_date = ''d2'', contributions = 3 \<rparr>,
      \<lparr> point_date = ''d3'', contributions = 0 \<rparr>]) = [2, 5, 5]"
  by (simp add: lineChartData_def cumulative_at_def Array_reduce_def Array_slice_def upt_rec)

text \<open>
  Claim C5: the line chart's data have one item for each item of the daily series, with
  the same date and count, and the cumulative value at index \<open>i\<close> is the sum of the
  counts at the indices \<open>0\<close> to \<open>i\<close> inclusive; on the series of the counts 2, 3, 0 the
  cumulative values are 2, 5, 5. This holds for every series, date-ascending or not.
\<close>

theorem lineChartData_prefix_sums:
  "length (lineChartData ps) = length ps \<and>
   (\<forall>i < length ps.
      cumulative (lineChartData ps ! i) = (\<Sum>j \<le> i. contributions (ps ! j)) \<and>
      point_date (lineChartData ps ! i) = point_date (ps ! i) \<and>
      contributions (lineChartData ps ! i) = contributions (ps ! i)) \<and>
   map cumulative (lineChartData
     [\<lparr> point_date = ''d1'', contributions = 2 \<rparr>,
      \<lparr> point_date = ''d2'', contributions = 3 \<rparr>,
      \<lparr> point_date = ''d3'', contributions = 0 \<rparr>]) = [2, 5, 5]"
proof (intro conjI allI impI)
  show "length (lineChartData ps) = length ps"
    by (rule lineChartData_length)
next
  fix i
  assume i: "i < length ps"
  have "cumulative (lineChartData ps ! i) = sum_list (take (Suc i) (map contributions ps))"
    using i by (simp add: lineChartData_nth cumulative_at_sum take_map)
  also have "\<dots> = (\<Sum>j \<le> i. map contributions ps ! j)"
    using i by (simp add: sum_list_take_index)
  also have "\<dots> = (\<Sum>j \<le> i. contributions (ps ! j))"
    using i by (intro sum.cong) simp_all
  finally show "cumulative (lineChartData ps ! i) = (\<Sum>j \<le> i. contributions (ps ! j))" .
  show "point_date (lineChartData ps ! i) = point_date (ps ! i)"
    using i by (simp add: lineChartData_nth)
  show "contributions (lineChartData ps ! i) = contributions (ps ! i)"
    using i by (simp add: lineChartData_nth)
next
  show "map cumulative (lineChartData
     [\<lparr> point_date = ''d1'', contributions = 2 \<rparr>,
      \<lparr> point_date = ''d2'', contributions = 3 \<rparr>,
      \<lparr> point_date = ''d3'', contributions = 0 \<rparr>]) = [2, 5, 5]"
    by (rule lineChartData_example)
qed

theorem lineChartData_prefix_sums_witness:
  "(1 :: nat) < length [\<lparr> point_date = ''d1'', contributions = 2 \<rparr>,
                        \<lparr> point_date = ''d2'', contributions = 3 \<rparr>] \<and>
   cumulative (lineChartData [\<lparr> point_date = ''d1'', contributions = 2 \<rparr>,
                              \<lparr> point_date = ''d2'', contributions = 3 \<rparr>] ! 1) = 5"
proof -
  let ?ps = "[\<lparr> point_date = ''d1'', contributions = 2 \<rparr>,
              \<lparr> point_date = ''d2'', contributions = 3 \<rparr>]"
  have len: "(1 :: nat) < length ?ps" by simp
  from lineChartData_prefix_sums [of ?ps] len
  have "cumulative (lineChartData ?ps ! 1) = (\<Sum>j \<le> 1. contributions (?ps ! j))"
    by blast
  also have "\<dots> = 5"
    by (simp add: atMost_Suc)
  finally show ?thesis using len by simp
qed

lemma running_sum_indexed:
  "running_sum acc ps =
     map (\<lambda>(item, index).
            \<lparr> point_date = point_date item, contributions = contributions item,
              cumulative = acc + cumulative_at ps index \<rparr>)
       (zip ps [0 ..< length ps])"
proof (induction ps arbitrary: acc)
  case Nil
  then show ?case by simp
next
  case (Cons p ps)
  have z: "zip (p # ps) [0 ..< length (p # ps)] =
             (p, 0) # map (\<lambda>(x, i). (x, Suc i)) (zip ps [0 ..< length ps])"
    by (simp add: upt_rec [of 0] map_Suc_upt [symmetric] zip_map2 del: upt_Suc)
  show ?case
    unfolding z by (simp add: Cons.IH cumulative_at_sum case_prod_beta o_def)
qed

text \<open>
  Claim C7: the running-sum construction, one pass with a carried sum, gives on every
  daily series the very list that the slice-and-reduce computation of the line chart
  gives.
\<close>

theorem running_sum_refines_lineChartData:
  "buildCumulativeSeries_linear ps = lineChartData ps"
  by (simp add: buildCumulativeSeries_linear_def lineChartData_def running_sum_indexed)

section \<open>Export\<close>

lemma handleShareToPNG_flag:
  "isDownloading (handleShareToPNG page u st) = (\<not> dashboardElement page \<or> \<not> shareElement page)"
  by (simp add: handleShareToPNG_def Let_def split: sum.splits)

text \<open>
  Claim C2 says that the flag \<^verbatim>\<open>isDownloading\<close> is set at entry and reset on every
  exit: success, failure of the rasterization, and the early exit taken when an element
  is missing. The early exit returns before the \<^verbatim>\<open>try\<close> block whose \<^verbatim>\<open>finally\<close>
  clause resets the flag: with no share layout on the page the routine ends with the flag
  set, having logged its message and triggered no download.
\<close>

theorem handleShareToPNG_early_exit_keeps_flag:
  "handleShareToPNG
     \<lparr> dashboardElement = True, shareElement = False, html2canvas = Inr ''data:image/png;base64,'' \<rparr>
     ''octocat''
     \<lparr> isDownloading = False, console = [], downloads = [] \<rparr>
   = \<lparr> isDownloading = True, console = [''no layout found''], downloads = [] \<rparr>"
  by (simp add: handleShareToPNG_def)

theorem handleShareToPNG_early_exit_keeps_flag_witness:
  "isDownloading (handleShareToPNG
     \<lparr> dashboardElement = True, shareElement = False, html2canvas = Inr ''data:image/png;base64,'' \<rparr>
     ''octocat''
     \<lparr> isDownloading = False, console = [], downloads = [] \<rparr>)"
  using handleShareToPNG_early_exit_keeps_flag by simp

lemma decimal_2024: "decimal 2024 = ''2024''"
  by code_simp

lemma decimal_2025: "decimal 2025 = ''2025''"
  by code_simp

text \<open>
  Claim C9 says that the download is named after the username and the year of the
  exported data. For the data of 2024 it is not: the routine writes 2025 whatever the
  year requested from the aggregator.
\<close>

theorem download_name_year_counterexample:
  "from_var (contribution_query_variables ''octocat'' 2024) = ''2024-01-01T00:00:00Z'' \<and>
   downloads (handleShareToPNG
     \<lparr> dashboardElement = True, shareElement = True, html2canvas = Inr ''data:image/png;base64,'' \<rparr>
     ''octocat''
     \<lparr> isDownloading = False, console = [], downloads = [] \<rparr>)
   = [(''octocat-github-wrapped-2025.png'', ''data:image/png;base64,'')] \<and>
   ''octocat-github-wrapped-2025.png'' \<noteq> specified_download_name ''octocat'' 2024"
proof (intro conjI)
  show "from_var (contribution_query_variables ''octocat'' 2024) = ''2024-01-01T00:00:00Z''"
    by (simp add: contribution_query_variables_def decimal_2024 del: decimal.simps)
  show "downloads (handleShareToPNG
     \<lparr> dashboardElement = True, shareElement = True, html2canvas = Inr ''data:image/png;base64,'' \<rparr>
     ''octocat''
     \<lparr> isDownloading = False, console = [], downloads = [] \<rparr>)
   = [(''octocat-github-wrapped-2025.png'', ''data:image/png;base64,'')]"
    by (simp add: handleShareToPNG_def download_name_def)
  show "''octocat-github-wrapped-2025.png'' \<noteq> specified_download_name ''octocat'' 2024"
    by (simp add: specified_download_name_def decimal_2024 del: decimal.simps)
qed

text \<open>
  Claim C9 as amended: when both elements exist and the rasterization succeeds, the
  export triggers one download, named by the username followed by
  \<^verbatim>\<open>-github-wrapped-2025.png\<close>. The year in the name is the constant 2025, the default
  year of the aggregator's request, and is the year of the data when that default was
  requested.
\<close>

theorem download_name_fixed_year:
  "downloads (handleShareToPNG
     \<lparr> dashboardElement = True, shareElement = True, html2canvas = Inr url \<rparr> username st)
   = downloads st @ [(username @ ''-github-wrapped-2025.png'', url)] \<and>
   username @ ''-github-wrapped-2025.png'' = specified_download_name username default_year"
  by (simp add: handleShareToPNG_def download_name_def specified_download_name_def
      default_year_def decimal_2025 del: decimal.simps)

theorem download_name_fixed_year_witness:
  "downloads (handleShareToPNG
     \<lparr> dashboardElement = True, shareElement = True, html2canvas = Inr ''data:image/png;base64,'' \<rparr>
     ''torvalds''
     \<lparr> isDownloading = False, console = [], downloads = [] \<rparr>)
   = [(''torvalds-github-wrapped-2025.png'', ''data:image/png;base64,'')]"
  using download_name_fixed_year
    [of "''data:image/png;base64,''" "''torvalds''"
        "\<lparr> isDownloading = False, console = [], downloads = [] \<rparr>"]
  by simp

end
